theory Spec2Isabelle
  imports Main "HOL-Library.Sublist"
begin

section \<open>Python strings\<close>

text \<open>
  A Python \<open>str\<close> is a sequence of Unicode code points, so it is modelled as a list of
  natural numbers. \<open>asc\<close> turns an ASCII literal of the source into that representation.
\<close>

type_synonym pystr = "nat list"

definition asc :: "string \<Rightarrow> pystr" where
  "asc s = map of_char s"

text \<open>
  The case mappings and the white-space class of code points below 128 are written out.
  For the other code points they come from the Unicode tables of the Python runtime, which
  are not part of this program: they are the fields of a parameter. The lower-case mapping
  of a code point may depend on its context (the final sigma rule), so it receives the
  code points before and after it.
\<close>

record unicode =
  lower_full :: "pystr \<Rightarrow> nat \<Rightarrow> pystr \<Rightarrow> pystr"
  title_full :: "nat \<Rightarrow> pystr"
  cased :: "nat \<Rightarrow> bool"
  space :: "nat \<Rightarrow> bool"

definition ascii_lower :: "nat \<Rightarrow> nat" where
  "ascii_lower c = (if 65 \<le> c \<and> c \<le> 90 then c + 32 else c)"

definition ascii_upper :: "nat \<Rightarrow> nat" where
  "ascii_upper c = (if 97 \<le> c \<and> c \<le> 122 then c - 32 else c)"

definition lower_cp :: "unicode \<Rightarrow> pystr \<Rightarrow> nat \<Rightarrow> pystr \<Rightarrow> pystr" where
  "lower_cp U pre c suf = (if c < 128 then [ascii_lower c] else lower_full U pre c suf)"

definition title_cp :: "unicode \<Rightarrow> nat \<Rightarrow> pystr" where
  "title_cp U c = (if c < 128 then [ascii_upper c] else title_full U c)"

definition is_cased :: "unicode \<Rightarrow> nat \<Rightarrow> bool" where
  "is_cased U c =
     (if c < 128 then (65 \<le> c \<and> c \<le> 90) \<or> (97 \<le> c \<and> c \<le> 122) else cased U c)"

definition is_space :: "unicode \<Rightarrow> nat \<Rightarrow> bool" where
  "is_space U c =
     (if c < 128 then (9 \<le> c \<and> c \<le> 13) \<or> (28 \<le> c \<and> c \<le> 32) else space U c)"

text \<open>\<open>s.lower()\<close>: every code point is replaced by its lower-case mapping.\<close>

fun lower_from :: "unicode \<Rightarrow> pystr \<Rightarrow> pystr \<Rightarrow> pystr" where
  "lower_from U pre [] = []"
| "lower_from U pre (c # cs) = lower_cp U pre c cs @ lower_from U (pre @ [c]) cs"

definition str_lower :: "unicode \<Rightarrow> pystr \<Rightarrow> pystr" where
  "str_lower U s = lower_from U [] s"

text \<open>
  \<open>s.title()\<close>: a code point that follows a cased one is lower-cased, any other one is
  title-cased; a word is a maximal run of cased code points.
\<close>

fun title_from :: "unicode \<Rightarrow> bool \<Rightarrow> pystr \<Rightarrow> pystr \<Rightarrow> pystr" where
  "title_from U previous_is_cased pre [] = []"
| "title_from U previous_is_cased pre (c # cs) =
     (if previous_is_cased then lower_cp U pre c cs else title_cp U c)
     @ title_from U (is_cased U c) (pre @ [c]) cs"

definition str_title :: "unicode \<Rightarrow> pystr \<Rightarrow> pystr" where
  "str_title U s = title_from U False [] s"

text \<open>\<open>s.strip()\<close>, \<open>s.startswith(p)\<close>, \<open>p in s\<close>, \<open>s.split(c)\<close> for a separator of one
  code point, \<open>sep.join(xs)\<close> and \<open>s.replace(old, new)\<close>.\<close>

definition str_strip :: "unicode \<Rightarrow> pystr \<Rightarrow> pystr" where
  "str_strip U s = rev (dropWhile (is_space U) (rev (dropWhile (is_space U) s)))"

fun startswith :: "pystr \<Rightarrow> pystr \<Rightarrow> bool" where
  "startswith s [] = True"
| "startswith [] (p # ps) = False"
| "startswith (c # cs) (p # ps) = (c = p \<and> startswith cs ps)"

fun str_contains :: "pystr \<Rightarrow> pystr \<Rightarrow> bool" where
  "str_contains [] p = (p = [])"
| "str_contains (c # cs) p = (startswith (c # cs) p \<or> str_contains cs p)"

fun str_split :: "nat \<Rightarrow> pystr \<Rightarrow> pystr list" where
  "str_split sep [] = [[]]"
| "str_split sep (c # cs) =
     (if c = sep then [] # str_split sep cs
      else (case str_split sep cs of [] \<Rightarrow> [[c]] | l # ls \<Rightarrow> (c # l) # ls))"

fun str_join :: "pystr \<Rightarrow> pystr list \<Rightarrow> pystr" where
  "str_join sep [] = []"
| "str_join sep [x] = x"
| "str_join sep (x # y # ys) = x @ sep @ str_join sep (y # ys)"

function replace_from :: "pystr \<Rightarrow> pystr \<Rightarrow> pystr \<Rightarrow> pystr" where
  "replace_from old new [] = []"
| "replace_from old new (c # cs) =
     (if old \<noteq> [] \<and> startswith (c # cs) old
      then new @ replace_from old new (drop (length old) (c # cs))
      else c # replace_from old new cs)"
  by pat_completeness auto
termination
  by (relation "measure (\<lambda>(old, new, s). length s)") auto

definition str_replace :: "pystr \<Rightarrow> pystr \<Rightarrow> pystr \<Rightarrow> pystr" where
  "str_replace s old new =
     (if old = [] then new @ concat (map (\<lambda>c. c # new) s) else replace_from old new s)"

section \<open>Python values and exceptions\<close>

text \<open>
  The program passes around what \<open>json.loads\<close> returns and what \<open>json.dumps\<close> accepts:
  \<open>None\<close>, booleans, integers, floats, strings, lists and dictionaries with string keys.
  A dictionary keeps its insertion order, so it is an association list. The program never
  computes with a float; one is identified by its \<open>repr\<close>.
\<close>

datatype pyval =
    PNone
  | PBool bool
  | PInt int
  | PFloat pystr
  | PStr pystr
  | PList "pyval list"
  | PDict "(pystr \<times> pyval) list"

datatype error =
    ImportError
  | ExtractionError
  | AttributeError
  | TypeError
  | KeyError
  | IndexError
  | UnboundLocalError
  | OSError
  | UnicodeEncodeError

definition bind_err :: "error + 'a \<Rightarrow> ('a \<Rightarrow> error + 'b) \<Rightarrow> error + 'b" where
  "bind_err m f = (case m of Inl e \<Rightarrow> Inl e | Inr x \<Rightarrow> f x)"

text \<open>Truth value of a value in a condition (\<open>if skills:\<close>).\<close>

fun truthy :: "pyval \<Rightarrow> bool" where
  "truthy PNone = False"
| "truthy (PBool b) = b"
| "truthy (PInt i) = (i \<noteq> 0)"
| "truthy (PFloat r) = (r \<noteq> asc ''0.0'' \<and> r \<noteq> asc ''-0.0'')"
| "truthy (PStr s) = (s \<noteq> [])"
| "truthy (PList xs) = (xs \<noteq> [])"
| "truthy (PDict kvs) = (kvs \<noteq> [])"

text \<open>\<open>d.get(key, default)\<close>: only a dictionary has the method.\<close>

fun py_get :: "pyval \<Rightarrow> pystr \<Rightarrow> pyval \<Rightarrow> error + pyval" where
  "py_get (PDict kvs) key dflt = Inr (case map_of kvs key of None \<Rightarrow> dflt | Some v \<Rightarrow> v)"
| "py_get v key dflt = Inl AttributeError"

text \<open>\<open>key in x\<close> for a string \<open>key\<close>: a key of a dictionary, an element of a list, a
  substring of a string; any other value is not iterable.\<close>

fun py_in :: "pystr \<Rightarrow> pyval \<Rightarrow> error + bool" where
  "py_in key (PDict kvs) = Inr (map_of kvs key \<noteq> None)"
| "py_in key (PList xs) = Inr (PStr key \<in> set xs)"
| "py_in key (PStr s) = Inr (str_contains s key)"
| "py_in key v = Inl TypeError"

text \<open>\<open>x[key]\<close> for a string \<open>key\<close>.\<close>

fun py_getitem :: "pyval \<Rightarrow> pystr \<Rightarrow> error + pyval" where
  "py_getitem (PDict kvs) key = (case map_of kvs key of None \<Rightarrow> Inl KeyError | Some v \<Rightarrow> Inr v)"
| "py_getitem v key = Inl TypeError"

text \<open>\<open>x[0]\<close>.\<close>

fun py_first :: "pyval \<Rightarrow> error + pyval" where
  "py_first (PList []) = Inl IndexError"
| "py_first (PList (x # xs)) = Inr x"
| "py_first (PStr []) = Inl IndexError"
| "py_first (PStr (c # cs)) = Inr (PStr [c])"
| "py_first (PDict kvs) = Inl KeyError"
| "py_first v = Inl TypeError"

text \<open>\<open>for x in v\<close>: the elements of a list, the characters of a string, the keys of a
  dictionary.\<close>

fun py_iter :: "pyval \<Rightarrow> error + pyval list" where
  "py_iter (PList xs) = Inr xs"
| "py_iter (PStr s) = Inr (map (\<lambda>c. PStr [c]) s)"
| "py_iter (PDict kvs) = Inr (map (\<lambda>kv. PStr (fst kv)) kvs)"
| "py_iter v = Inl TypeError"

text \<open>\<open>d.items()\<close>.\<close>

fun py_items :: "pyval \<Rightarrow> error + (pystr \<times> pyval) list" where
  "py_items (PDict kvs) = Inr kvs"
| "py_items v = Inl AttributeError"

section \<open>The keyword fallback\<close>

definition tech_keywords :: "(pystr \<times> pystr list) list" where
  "tech_keywords =
     [(asc ''programming_languages'',
         map asc [''Python'', ''JavaScript'', ''Java'', ''C++'', ''C#'', ''Go'', ''Rust'',
                  ''TypeScript'', ''SQL'', ''R'', ''Swift'', ''Kotlin'']),
      (asc ''frameworks'',
         map asc [''React'', ''Vue'', ''Angular'', ''Django'', ''Flask'', ''FastAPI'', ''Spring'',
                  ''Node.js'', ''Express'', ''TensorFlow'', ''PyTorch'']),
      (asc ''tools'',
         map asc [''Git'', ''Docker'', ''Kubernetes'', ''AWS'', ''Azure'', ''GCP'', ''Jenkins'',
                  ''CI/CD'', ''Linux'', ''MongoDB'', ''PostgreSQL'', ''Redis''])]"

text \<open>The inner loop: the keywords of one category that occur in the lower-cased text.\<close>

definition found_keywords :: "unicode \<Rightarrow> pystr \<Rightarrow> pystr list \<Rightarrow> pystr list" where
  "found_keywords U resume_lower keywords =
     filter (\<lambda>keyword. str_contains resume_lower (str_lower U keyword)) keywords"

definition found_skills :: "unicode \<Rightarrow> pystr \<Rightarrow> (pystr \<times> pyval) list" where
  "found_skills U resume_text =
     (let resume_lower = str_lower U resume_text
      in map (\<lambda>(category, keywords).
                (category, PList (map PStr (found_keywords U resume_lower keywords))))
           tech_keywords)"

definition fallback_skill_extraction :: "unicode \<Rightarrow> pystr \<Rightarrow> pyval" where
  "fallback_skill_extraction U resume_text =
     PDict [(asc ''skills'',
               PDict [(asc ''technical'', PDict (found_skills U resume_text)),
                      (asc ''soft_skills'', PList []),
                      (asc ''domains'', PList []),
                      (asc ''certifications'', PList [])]),
            (asc ''experience_levels'', PDict []),
            (asc ''skill_relationships'', PList [])]"

section \<open>The tree builder\<close>

definition branch :: "pystr \<Rightarrow> pyval list \<Rightarrow> pyval" where
  "branch name children = PDict [(asc ''name'', PStr name), (asc ''children'', PList children)]"

definition leaf :: "pystr \<Rightarrow> pyval \<Rightarrow> pyval" where
  "leaf ty skill = PDict [(asc ''name'', skill), (asc ''type'', PStr ty)]"

definition category_label :: "unicode \<Rightarrow> pystr \<Rightarrow> pystr" where
  "category_label U category = str_title U (str_replace category (asc ''_'') (asc '' ''))"

text \<open>The loop over \<open>tech_skills.items()\<close>: the category nodes appended to the technical
  node.\<close>

fun category_nodes :: "unicode \<Rightarrow> (pystr \<times> pyval) list \<Rightarrow> error + pyval list" where
  "category_nodes U [] = Inr []"
| "category_nodes U ((category, skills) # rest) =
     (if truthy skills
      then bind_err (py_iter skills) (\<lambda>xs.
           bind_err (category_nodes U rest) (\<lambda>nodes.
           Inr (branch (category_label U category) (map (leaf (asc ''skill'')) xs) # nodes)))
      else category_nodes U rest)"

text \<open>Each of the four sections returns the nodes it appends to the children of the root.\<close>

definition technical_section :: "unicode \<Rightarrow> pyval \<Rightarrow> error + pyval list" where
  "technical_section U skill_data =
     bind_err (py_get skill_data (asc ''skills'') (PDict [])) (\<lambda>s.
     bind_err (py_in (asc ''technical'') s) (\<lambda>has_technical.
       if has_technical
       then bind_err (py_getitem skill_data (asc ''skills'')) (\<lambda>s'.
            bind_err (py_getitem s' (asc ''technical'')) (\<lambda>tech_skills.
            bind_err (py_items tech_skills) (\<lambda>items.
            bind_err (category_nodes U items) (\<lambda>nodes.
              if nodes \<noteq> [] then Inr [branch (asc ''Technical Skills'') nodes] else Inr []))))
       else Inr []))"

definition list_section :: "pystr \<Rightarrow> pystr \<Rightarrow> pystr \<Rightarrow> pyval \<Rightarrow> error + pyval list" where
  "list_section key name ty skill_data =
     bind_err (py_get skill_data (asc ''skills'') (PDict [])) (\<lambda>s.
     bind_err (py_get s key PNone) (\<lambda>v.
       if truthy v
       then bind_err (py_getitem skill_data (asc ''skills'')) (\<lambda>s'.
            bind_err (py_getitem s' key) (\<lambda>v'.
            bind_err (py_iter v') (\<lambda>xs.
              Inr [branch name (map (leaf ty) xs)])))
       else Inr []))"

definition build_skill_tree :: "unicode \<Rightarrow> pyval \<Rightarrow> error + pyval" where
  "build_skill_tree U skill_data =
     bind_err (technical_section U skill_data) (\<lambda>tech.
     bind_err (list_section (asc ''soft_skills'') (asc ''Soft Skills'') (asc ''skill'') skill_data) (\<lambda>soft.
     bind_err (list_section (asc ''domains'') (asc ''Domain Expertise'') (asc ''skill'') skill_data) (\<lambda>domain.
     bind_err (list_section (asc ''certifications'') (asc ''Certifications'') (asc ''certification'')
                 skill_data) (\<lambda>cert.
       Inr (branch (asc ''Skills'') (tech @ soft @ domain @ cert))))))"

section \<open>The text extractor\<close>

text \<open>
  The two PDF libraries are outside the program. What a backend does on a path is the
  sequence of its events: a page whose \<open>extract_text()\<close> returns a string or \<open>None\<close>, or
  an exception (raised when the document is opened or while its pages are read), after
  which nothing more happens. A backend that could not be imported is \<open>None\<close>.
\<close>

datatype page_event = Page "pystr option" | Raise

type_synonym backend = "pystr \<Rightarrow> page_event list"

text \<open>The body of one \<open>try\<close> block: the text accumulated when the block is left, by its
  end or by an exception, which the handler only prints.\<close>

fun read_pages :: "page_event list \<Rightarrow> pystr \<Rightarrow> pystr" where
  "read_pages [] text = text"
| "read_pages (Raise # rest) text = text"
| "read_pages (Page page_text # rest) text =
     read_pages rest
       (case page_text of
          None \<Rightarrow> text
        | Some t \<Rightarrow> if t \<noteq> [] then text @ t @ asc [CHR 0x0A] else text)"

definition extract_text_from_pdf ::
    "unicode \<Rightarrow> backend option \<Rightarrow> backend option \<Rightarrow> pystr \<Rightarrow> error + pystr" where
  "extract_text_from_pdf U pdfplumber PyPDF2 pdf_path =
     (if pdfplumber = None \<and> PyPDF2 = None then Inl ImportError
      else
        let text = (case pdfplumber of None \<Rightarrow> [] | Some b \<Rightarrow> read_pages (b pdf_path) []);
            text = (if text = [] then
                      (case PyPDF2 of None \<Rightarrow> text | Some b \<Rightarrow> read_pages (b pdf_path) text)
                    else text)
        in if text = [] then Inl ExtractionError else Inr (str_strip U text))"

section \<open>The remote classifier\<close>

text \<open>
  A text with a surrogate code point cannot be encoded as UTF-8. Standard output is taken
  to be a UTF-8 text stream, as the output files are: \<open>print\<close> raises
  \<open>UnicodeEncodeError\<close> on such a text and prints any other text.
\<close>

definition utf8_encodable :: "pystr \<Rightarrow> bool" where
  "utf8_encodable s = list_all (\<lambda>c. \<not> (55296 \<le> c \<and> c \<le> 57343)) s"

definition py_print :: "pystr \<Rightarrow> error option" where
  "py_print s = (if utf8_encodable s then None else Some UnicodeEncodeError)"

text \<open>
  The outcome of the one HTTP request belongs to the outside world: the request raises
  (no connection, time-out), or a response arrives with its status and with what
  \<open>response.json()\<close> does on its body: it returns a value, raises an exception that is a
  \<open>json.JSONDecodeError\<close>, or raises another exception.
\<close>

datatype body_json = Decoded pyval | DecodeError | OtherError

datatype http_outcome = TransportError | Response nat body_json

text \<open>\<open>result.get('choices', [{}])[0].get('message', {}).get('content', '{}')\<close>\<close>

definition response_content :: "pyval \<Rightarrow> error + pyval" where
  "response_content result =
     bind_err (py_get result (asc ''choices'') (PList [PDict []])) (\<lambda>choices.
     bind_err (py_first choices) (\<lambda>choice.
     bind_err (py_get choice (asc ''message'') (PDict [])) (\<lambda>message.
     py_get message (asc ''content'') (PStr (asc ''{}'')))))"

text \<open>The content is trimmed; when it starts with a code fence, every line that starts
  with one (after trimming) is dropped.\<close>

definition strip_code_fence :: "unicode \<Rightarrow> pystr \<Rightarrow> pystr" where
  "strip_code_fence U content0 =
     (let content = str_strip U content0
      in if startswith content (asc ''```'')
         then str_join (asc [CHR 0x0A])
                (filter (\<lambda>line. \<not> startswith (str_strip U line) (asc ''```''))
                   (str_split 10 content))
         else content)"

text \<open>
  \<open>json.loads\<close> is the library's parser, a parameter \<open>loads\<close>: it returns a value, raises
  \<open>json.JSONDecodeError\<close> on a text that is not JSON, or raises another exception (the
  recursion limit on a very deep nesting).
\<close>

datatype loads_result = Loaded pyval | NotJSON | LoadsError

text \<open>
  The \<open>try\<close> block has two handlers. The handler of \<open>json.JSONDecodeError\<close> prints the
  message of the exception, then \<open>content[:500]\<close>, and returns the keyword fallback. The
  name \<open>content\<close> is assigned only after \<open>response.json()\<close> has returned: when that call
  raises the decode error, the handler raises \<open>UnboundLocalError\<close>; when \<open>json.loads\<close>
  raises it, \<open>content\<close> is the trimmed content without its code-fence lines, and printing
  it raises \<open>UnicodeEncodeError\<close> if its first 500 characters hold a surrogate. An
  exception raised in a handler leaves the function. The handler of every other exception
  prints the message of the exception and returns the keyword fallback: the request that
  raises, the error status (\<open>raise_for_status\<close>), \<open>response.json()\<close> or \<open>json.loads\<close>
  raising something else, and a response whose content cannot be read (\<open>.get\<close> on a value
  that is not a dictionary, \<open>[0]\<close> on an empty list, \<open>.strip()\<close> on a value that is not a
  string). The messages of the exceptions are texts of the libraries and are printed.
\<close>

definition analyze_resume_with_xai ::
    "unicode \<Rightarrow> (pystr \<Rightarrow> loads_result) \<Rightarrow> http_outcome \<Rightarrow> pystr \<Rightarrow> error + pyval" where
  "analyze_resume_with_xai U loads outcome resume_text =
     (case outcome of
        TransportError \<Rightarrow> Inr (fallback_skill_extraction U resume_text)
      | Response status body \<Rightarrow>
          if 400 \<le> status \<and> status < 600 then Inr (fallback_skill_extraction U resume_text)
          else
            (case body of
               DecodeError \<Rightarrow> Inl UnboundLocalError
             | OtherError \<Rightarrow> Inr (fallback_skill_extraction U resume_text)
             | Decoded result \<Rightarrow>
                 (case response_content result of
                    Inr (PStr content0) \<Rightarrow>
                      (let content = strip_code_fence U content0
                       in case loads content of
                            Loaded skill_data \<Rightarrow> Inr skill_data
                          | NotJSON \<Rightarrow>
                              (case py_print (asc ''Response content: '' @ take 500 content) of
                                 Some e \<Rightarrow> Inl e
                               | None \<Rightarrow> Inr (fallback_skill_extraction U resume_text))
                          | LoadsError \<Rightarrow> Inr (fallback_skill_extraction U resume_text))
                  | _ \<Rightarrow> Inr (fallback_skill_extraction U resume_text))))"

text \<open>
  \<open>self.api_key = api_key or os.getenv('XAI_API_KEY')\<close>, and the choice of the classifier
  in \<open>generate_skill_tree\<close>: the remote one when the key is a non-empty string.
\<close>

definition init_api_key :: "pystr option \<Rightarrow> pystr option \<Rightarrow> pystr option" where
  "init_api_key api_key env_key =
     (case api_key of None \<Rightarrow> env_key | Some k \<Rightarrow> if k \<noteq> [] then Some k else env_key)"

definition classify ::
    "unicode \<Rightarrow> (pystr \<Rightarrow> loads_result) \<Rightarrow> http_outcome \<Rightarrow> pystr option \<Rightarrow> pystr
      \<Rightarrow> error + pyval" where
  "classify U loads outcome self_api_key resume_text =
     (if (case self_api_key of None \<Rightarrow> False | Some k \<Rightarrow> k \<noteq> [])
      then analyze_resume_with_xai U loads outcome resume_text
      else Inr (fallback_skill_extraction U resume_text))"

section \<open>Serialisation\<close>















section \<open>The artifact writer\<close>














section \<open>A reference parser\<close>

text \<open>
  A parser for JSON texts, to state that a written file parses back and to evaluate the
  classifier on concrete responses. It follows the grammar of \<open>json.loads\<close>: white space
  is space, tab, line feed and carriage return; a string may hold no raw control
  character; the two escapes of a surrogate pair are combined; a repeated key keeps its
  first position and its last value. Numbers with a fraction or an exponent, \<open>NaN\<close> and
  \<open>Infinity\<close> are floats and are rejected: the parser covers the texts without floats. The
  fuel bounds the recursion; it is two more than twice the length of the text.
\<close>

definition is_ws :: "nat \<Rightarrow> bool" where
  "is_ws c = (c = 32 \<or> c = 9 \<or> c = 10 \<or> c = 13)"

definition skip_ws :: "pystr \<Rightarrow> pystr" where
  "skip_ws s = dropWhile is_ws s"

definition hex_value :: "nat \<Rightarrow> nat option" where
  "hex_value c =
     (if 48 \<le> c \<and> c \<le> 57 then Some (c - 48)
      else if 97 \<le> c \<and> c \<le> 102 then Some (c - 87)
      else if 65 \<le> c \<and> c \<le> 70 then Some (c - 55)
      else None)"

definition hex4 :: "nat \<Rightarrow> nat \<Rightarrow> nat \<Rightarrow> nat \<Rightarrow> nat option" where
  "hex4 a b c d =
     (case hex_value a of None \<Rightarrow> None | Some w \<Rightarrow>
      case hex_value b of None \<Rightarrow> None | Some x \<Rightarrow>
      case hex_value c of None \<Rightarrow> None | Some y \<Rightarrow>
      case hex_value d of None \<Rightarrow> None | Some z \<Rightarrow>
        Some (((w * 16 + x) * 16 + y) * 16 + z))"

definition unescape :: "nat \<Rightarrow> nat option" where
  "unescape e =
     (if e = 34 then Some 34
      else if e = 92 then Some 92
      else if e = 47 then Some 47
      else if e = 98 then Some 8
      else if e = 102 then Some 12
      else if e = 110 then Some 10
      else if e = 114 then Some 13
      else if e = 116 then Some 9
      else None)"

definition surrogate_pair :: "nat \<Rightarrow> pystr \<Rightarrow> nat \<times> pystr" where
  "surrogate_pair uni r =
     (case r of
        x # y # a # b # c # d # r2 \<Rightarrow>
          if 55296 \<le> uni \<and> uni \<le> 56319 \<and> x = 92 \<and> y = 117 then
            (case hex4 a b c d of
               None \<Rightarrow> (uni, r)
             | Some uni2 \<Rightarrow>
                 if 56320 \<le> uni2 \<and> uni2 \<le> 57343
                 then (65536 + (uni - 55296) * 1024 + (uni2 - 56320), r2)
                 else (uni, r))
          else (uni, r)
      | _ \<Rightarrow> (uni, r))"

function parse_chars :: "pystr \<Rightarrow> (pystr \<times> pystr) option" where
  "parse_chars [] = None"
| "parse_chars (c # cs) =
     (if c = 34 then Some ([], cs)
      else if c = 92 then
        (case cs of
           [] \<Rightarrow> None
         | e # r \<Rightarrow>
             if e = 117 then
               (case r of
                  a # b # c' # d # r1 \<Rightarrow>
                    (case hex4 a b c' d of
                       None \<Rightarrow> None
                     | Some uni \<Rightarrow>
                         (case parse_chars (snd (surrogate_pair uni r1)) of
                            None \<Rightarrow> None
                          | Some (str, rest) \<Rightarrow> Some (fst (surrogate_pair uni r1) # str, rest)))
                | _ \<Rightarrow> None)
             else
               (case unescape e of
                  None \<Rightarrow> None
                | Some u \<Rightarrow>
                    (case parse_chars r of
                       None \<Rightarrow> None
                     | Some (str, rest) \<Rightarrow> Some (u # str, rest))))
      else if c < 32 then None
      else (case parse_chars cs of
              None \<Rightarrow> None
            | Some (str, rest) \<Rightarrow> Some (c # str, rest)))"
  by pat_completeness auto
termination
  by (relation "measure length")
     (auto simp: surrogate_pair_def less_Suc_eq_le split: list.splits option.splits)

definition is_digit :: "nat \<Rightarrow> bool" where
  "is_digit c = (48 \<le> c \<and> c \<le> 57)"

definition digits_value :: "pystr \<Rightarrow> nat" where
  "digits_value ds = foldl (\<lambda>n d. 10 * n + (d - 48)) 0 ds"

definition parse_int :: "pystr \<Rightarrow> (pyval \<times> pystr) option" where
  "parse_int s =
     (let negative = (case s of [] \<Rightarrow> False | c # r \<Rightarrow> c = 45);
          s1 = (if negative then tl s else s);
          ds = takeWhile is_digit s1;
          rest = dropWhile is_digit s1
      in if ds = [] \<or> (hd ds = 48 \<and> 1 < length ds) then None
         else if (case rest of [] \<Rightarrow> False | c # r \<Rightarrow> c = 46 \<or> c = 101 \<or> c = 69) then None
         else Some (PInt (if negative then - int (digits_value ds) else int (digits_value ds)), rest))"

fun dict_set :: "(pystr \<times> pyval) list \<Rightarrow> pystr \<Rightarrow> pyval \<Rightarrow> (pystr \<times> pyval) list" where
  "dict_set [] key v = [(key, v)]"
| "dict_set ((k, old) # kvs) key v =
     (if k = key then (k, v) # kvs else (k, old) # dict_set kvs key v)"

fun parse_value :: "nat \<Rightarrow> pystr \<Rightarrow> (pyval \<times> pystr) option"
  and parse_elements :: "nat \<Rightarrow> pyval list \<Rightarrow> pystr \<Rightarrow> (pyval \<times> pystr) option"
  and parse_members :: "nat \<Rightarrow> (pystr \<times> pyval) list \<Rightarrow> pystr \<Rightarrow> (pyval \<times> pystr) option"
where
  "parse_value 0 s = None"
| "parse_value (Suc n) [] = None"
| "parse_value (Suc n) (c # cs) =
     (if c = 34 then
        (case parse_chars cs of None \<Rightarrow> None | Some (str, rest) \<Rightarrow> Some (PStr str, rest))
      else if c = 123 then
        (case skip_ws cs of
           [] \<Rightarrow> None
         | d # r \<Rightarrow> if d = 125 then Some (PDict [], r) else parse_members n [] (d # r))
      else if c = 91 then
        (case skip_ws cs of
           [] \<Rightarrow> None
         | d # r \<Rightarrow> if d = 93 then Some (PList [], r) else parse_elements n [] (d # r))
      else if startswith (c # cs) (asc ''null'') then Some (PNone, drop 4 (c # cs))
      else if startswith (c # cs) (asc ''true'') then Some (PBool True, drop 4 (c # cs))
      else if startswith (c # cs) (asc ''false'') then Some (PBool False, drop 5 (c # cs))
      else parse_int (c # cs))"
| "parse_elements 0 acc s = None"
| "parse_elements (Suc n) acc s =
     (case parse_value n s of
        None \<Rightarrow> None
      | Some (v, r) \<Rightarrow>
          (case skip_ws r of
             [] \<Rightarrow> None
           | d # r' \<Rightarrow>
               if d = 44 then parse_elements n (acc @ [v]) (skip_ws r')
               else if d = 93 then Some (PList (acc @ [v]), r')
               else None))"
| "parse_members 0 acc s = None"
| "parse_members (Suc n) acc [] = None"
| "parse_members (Suc n) acc (q # cs) =
     (if q \<noteq> 34 then None
      else
        (case parse_chars cs of
           None \<Rightarrow> None
         | Some (key, r) \<Rightarrow>
             (case skip_ws r of
                [] \<Rightarrow> None
              | colon # r1 \<Rightarrow>
                  if colon \<noteq> 58 then None
                  else
                    (case parse_value n (skip_ws r1) of
                       None \<Rightarrow> None
                     | Some (v, r2) \<Rightarrow>
                         (case skip_ws r2 of
                            [] \<Rightarrow> None
                          | d # r3 \<Rightarrow>
                              if d = 44 then parse_members n (dict_set acc key v) (skip_ws r3)
                              else if d = 125 then Some (PDict (dict_set acc key v), r3)
                              else None)))))"

definition parse_json :: "pystr \<Rightarrow> pyval option" where
  "parse_json s =
     (case parse_value (Suc (Suc (length s + length s))) (skip_ws s) of
        None \<Rightarrow> None
      | Some (v, rest) \<Rightarrow> if skip_ws rest = [] then Some v else None)"

section \<open>Skill trees\<close>




section \<open>Skill records\<close>

text \<open>
  The shape of a skill record: a dictionary whose \<open>skills\<close> entry, when present, is a
  dictionary; its \<open>technical\<close> entry, when present, is a dictionary of categories; the
  categories and the entries \<open>soft_skills\<close>, \<open>domains\<close> and \<open>certifications\<close>, when
  present, satisfy \<open>P\<close>. With \<open>P\<close> the lists of strings this is a well-formed record, with
  \<open>P\<close> the empty list it is an all-empty one. An absent field counts as an empty one.
\<close>

fun is_str_list :: "pyval \<Rightarrow> bool" where
  "is_str_list (PList xs) = list_all (\<lambda>x. case x of PStr s \<Rightarrow> True | _ \<Rightarrow> False) xs"
| "is_str_list v = False"

definition field_ok :: "(pyval \<Rightarrow> bool) \<Rightarrow> (pystr \<times> pyval) list \<Rightarrow> pystr \<Rightarrow> bool" where
  "field_ok P kvs key = (case map_of kvs key of None \<Rightarrow> True | Some v \<Rightarrow> P v)"

fun categories_ok :: "(pyval \<Rightarrow> bool) \<Rightarrow> pyval \<Rightarrow> bool" where
  "categories_ok P (PDict cats) = list_all (\<lambda>kv. P (snd kv)) cats"
| "categories_ok P v = False"

fun skills_ok :: "(pyval \<Rightarrow> bool) \<Rightarrow> pyval \<Rightarrow> bool" where
  "skills_ok P (PDict sk) =
     (field_ok (categories_ok P) sk (asc ''technical'') \<and> field_ok P sk (asc ''soft_skills'')
      \<and> field_ok P sk (asc ''domains'') \<and> field_ok P sk (asc ''certifications''))"
| "skills_ok P v = False"

fun record_ok :: "(pyval \<Rightarrow> bool) \<Rightarrow> pyval \<Rightarrow> bool" where
  "record_ok P (PDict items) = field_ok (skills_ok P) items (asc ''skills'')"
| "record_ok P v = False"

definition is_skill_record :: "pyval \<Rightarrow> bool" where
  "is_skill_record r = record_ok is_str_list r"

definition all_empty :: "pyval \<Rightarrow> bool" where
  "all_empty r = record_ok (\<lambda>v. v = PList []) r"

text \<open>Tables for evaluation on ASCII inputs: they leave every other code point alone.\<close>

definition plain_unicode :: unicode where
  "plain_unicode = \<lparr>lower_full = (\<lambda>pre c suf. [c]), title_full = (\<lambda>c. [c]),
     cased = (\<lambda>c. False), space = (\<lambda>c. False)\<rparr>"





text \<open>The code points that UTF-8 encodes; \<open>clean\<close> ones are moreover not the letter K,
  which the template has only inside its marker.\<close>

definition no_surrogate :: "nat \<Rightarrow> bool" where
  "no_surrogate c = (\<not> (55296 \<le> c \<and> c \<le> 57343))"






text \<open>\<open>record["skills"]["technical"][category]\<close>, to read a category of a record.\<close>

definition technical_category :: "pyval \<Rightarrow> pystr \<Rightarrow> error + pyval" where
  "technical_category record category =
     bind_err (py_getitem record (asc ''skills'')) (\<lambda>s.
     bind_err (py_getitem s (asc ''technical'')) (\<lambda>t. py_getitem t category))"

text \<open>The ASCII letters.\<close>

definition is_letter :: "nat \<Rightarrow> bool" where
  "is_letter c = ((65 \<le> c \<and> c \<le> 90) \<or> (97 \<le> c \<and> c \<le> 122))"

text \<open>
  The reference parser in the place of the library's parser: a text that it does not parse
  is not JSON.
\<close>

definition json_loads :: "pystr \<Rightarrow> loads_result" where
  "json_loads s = (case parse_json s of Some v \<Rightarrow> Loaded v | None \<Rightarrow> NotJSON)"

text \<open>
  A decoded response that lacks the content: a dictionary with no key \<open>choices\<close>, or whose
  \<open>choices\<close> is a list that starts with a dictionary with no key \<open>message\<close>, or whose
  \<open>message\<close> there is a dictionary with no key \<open>content\<close>.
\<close>

definition lacks_content :: "pyval \<Rightarrow> bool" where
  "lacks_content result =
     (case result of
        PDict kvs \<Rightarrow>
          (case map_of kvs (asc ''choices'') of
             None \<Rightarrow> True
           | Some (PList (PDict choice # rest)) \<Rightarrow>
               (case map_of choice (asc ''message'') of
                  None \<Rightarrow> True
                | Some (PDict message) \<Rightarrow> map_of message (asc ''content'') = None
                | Some v \<Rightarrow> False)
           | Some v \<Rightarrow> False)
      | v \<Rightarrow> False)"

text \<open>A response of the shape the service documents, with the given content.\<close>

definition chat_response :: "pystr \<Rightarrow> pyval" where
  "chat_response content =
     PDict [(asc ''choices'',
             PList [PDict [(asc ''message'', PDict [(asc ''content'', PStr content)])]])]"



section \<open>Properties of the string operations\<close>

lemmas asc_eval = asc_def str_lower_def lower_cp_def ascii_lower_def ascii_upper_def
  title_cp_def is_cased_def str_title_def str_replace_def


lemmas parse_eval = parse_json_def skip_ws_def is_ws_def asc_def hex4_def
  hex_value_def unescape_def surrogate_pair_def parse_int_def is_digit_def digits_value_def

lemma startswith_iff: "startswith s p \<longleftrightarrow> (\<exists>suf. s = p @ suf)"
  by (induction s p rule: startswith.induct) auto

lemma str_contains_iff: "str_contains s p \<longleftrightarrow> (\<exists>pre suf. s = pre @ p @ suf)"
proof (induction s)
  case Nil
  then show ?case by auto
next
  case (Cons c cs)
  show ?case
  proof
    assume "str_contains (c # cs) p"
    then consider "startswith (c # cs) p" | "str_contains cs p" by auto
    then show "\<exists>pre suf. c # cs = pre @ p @ suf"
    proof cases
      case 1
      then obtain suf where "c # cs = p @ suf" by (auto simp: startswith_iff)
      then have "c # cs = [] @ p @ suf" by simp
      then show ?thesis by blast
    next
      case 2
      then obtain pre suf where "cs = pre @ p @ suf" using Cons.IH by blast
      then have "c # cs = (c # pre) @ p @ suf" by simp
      then show ?thesis by blast
    qed
  next
    assume "\<exists>pre suf. c # cs = pre @ p @ suf"
    then obtain pre suf where h: "c # cs = pre @ p @ suf" by blast
    show "str_contains (c # cs) p"
    proof (cases pre)
      case Nil
      with h have "startswith (c # cs) p" by (auto simp: startswith_iff)
      then show ?thesis by simp
    next
      case (Cons d ds)
      with h have "cs = ds @ p @ suf" by simp
      then have "str_contains cs p" using Cons.IH by blast
      then show ?thesis by simp
    qed
  qed
qed

lemma lower_from_skip:
  "\<exists>x. lower_from U pre (a @ rest) = x @ lower_from U (pre @ a) rest"
proof (induction a arbitrary: pre)
  case Nil
  then show ?case by simp
next
  case (Cons c cs)
  from Cons.IH [of "pre @ [c]"] obtain x
    where "lower_from U (pre @ [c]) (cs @ rest) = x @ lower_from U (pre @ [c] @ cs) rest"
    by auto
  then have "lower_from U pre ((c # cs) @ rest)
      = (lower_cp U pre c (cs @ rest) @ x) @ lower_from U (pre @ c # cs) rest"
    by simp
  then show ?case by blast
qed

lemma lower_from_ascii:
  "list_all (\<lambda>c. c < 128) k \<Longrightarrow>
   lower_from U pre (k @ rest) = map ascii_lower k @ lower_from U (pre @ k) rest"
  by (induction k arbitrary: pre) (simp_all add: lower_cp_def)

lemma str_lower_ascii: "list_all (\<lambda>c. c < 128) k \<Longrightarrow> str_lower U k = map ascii_lower k"
  using lower_from_ascii [of k U "[]" "[]"] by (simp add: str_lower_def)

lemma lower_keeps_ascii:
  assumes "list_all (\<lambda>c. c < 128) k"
  shows "\<exists>x y. str_lower U (a @ k @ b) = x @ map ascii_lower k @ y"
proof -
  obtain x where "lower_from U [] (a @ k @ b) = x @ lower_from U ([] @ a) (k @ b)"
    using lower_from_skip [of U "[]" a "k @ b"] by blast
  then have "str_lower U (a @ k @ b) = x @ map ascii_lower k @ lower_from U (a @ k) b"
    using lower_from_ascii [OF assms, of U a b] by (simp add: str_lower_def)
  then show ?thesis by blast
qed

lemma ascii_lower_idem: "ascii_lower (ascii_lower c) = ascii_lower c"
  by (simp add: ascii_lower_def)

lemma contains_lowered:
  assumes "list_all (\<lambda>c. c < 128) k" and "text = a @ k @ b"
  shows "str_contains (str_lower U text) (map ascii_lower k)"
  using lower_keeps_ascii [OF assms(1), of U a b] assms(2) by (auto simp: str_contains_iff)

section \<open>Properties of the tree builder\<close>

lemma bind_err_simps [simp]:
  "bind_err (Inl e) f = Inl e" "bind_err (Inr x) f = f x"
  by (simp_all add: bind_err_def)

lemma category_nodes_total:
  "list_all (\<lambda>kv. is_str_list (snd kv)) cats \<Longrightarrow> \<exists>ns. category_nodes U cats = Inr ns"
proof (induction cats)
  case Nil
  then show ?case by simp
next
  case (Cons kv cats)
  obtain k v where kv: "kv = (k, v)" by (cases kv)
  from Cons obtain ns where ns: "category_nodes U cats = Inr ns" by auto
  from Cons.prems kv have "is_str_list v" by simp
  then obtain xs where "v = PList xs" by (cases v) auto
  with kv ns show ?case by simp
qed

lemma category_nodes_filter:
  "category_nodes U cats = category_nodes U (filter (\<lambda>kv. truthy (snd kv)) cats)"
  by (induction U cats rule: category_nodes.induct) simp_all

lemma list_section_total:
  "field_ok is_str_list sk key \<Longrightarrow> map_of items (asc ''skills'') = Some (PDict sk) \<Longrightarrow>
   \<exists>ns. list_section key name ty (PDict items) = Inr ns"
  apply (cases "map_of sk key")
   apply (simp add: list_section_def)
  subgoal for v
    by (cases v) (auto simp: list_section_def field_ok_def)
  done


lemma category_nodes_empty:
  "list_all (\<lambda>kv. snd kv = PList []) cats \<Longrightarrow> category_nodes U cats = Inr []"
  by (induction cats) auto

lemma list_section_empty:
  "field_ok (\<lambda>v. \<not> truthy v) sk key \<Longrightarrow> map_of items (asc ''skills'') = Some (PDict sk) \<Longrightarrow>
   list_section key name ty (PDict items) = Inr []"
  by (cases "map_of sk key") (auto simp: list_section_def field_ok_def)

lemma list_section_absent:
  "map_of items (asc ''skills'') = None \<Longrightarrow> list_section key name ty (PDict items) = Inr []"
  by (simp add: list_section_def)

lemma field_ok_mono: "field_ok P kvs key \<Longrightarrow> (\<And>v. P v \<Longrightarrow> Q v) \<Longrightarrow> field_ok Q kvs key"
  by (auto simp: field_ok_def split: option.splits)

lemma technical_section_total:
  assumes "field_ok (categories_ok is_str_list) sk (asc ''technical'')"
    and "map_of items (asc ''skills'') = Some (PDict sk)"
  shows "\<exists>ns. technical_section U (PDict items) = Inr ns"
proof (cases "map_of sk (asc ''technical'')")
  case None
  with assms(2) show ?thesis by (simp add: technical_section_def)
next
  case (Some t)
  with assms(1) have "categories_ok is_str_list t" by (simp add: field_ok_def)
  then obtain cats where t: "t = PDict cats" and "list_all (\<lambda>kv. is_str_list (snd kv)) cats"
    by (cases t) auto
  then obtain ns where "category_nodes U cats = Inr ns"
    using category_nodes_total by blast
  with Some t assms(2) show ?thesis by (simp add: technical_section_def)
qed

lemma technical_section_empty:
  assumes "field_ok (categories_ok (\<lambda>v. v = PList [])) sk (asc ''technical'')"
    and "map_of items (asc ''skills'') = Some (PDict sk)"
  shows "technical_section U (PDict items) = Inr []"
proof (cases "map_of sk (asc ''technical'')")
  case None
  with assms(2) show ?thesis by (simp add: technical_section_def)
next
  case (Some t)
  with assms(1) have "categories_ok (\<lambda>v. v = PList []) t" by (simp add: field_ok_def)
  then obtain cats where t: "t = PDict cats" and "list_all (\<lambda>kv. snd kv = PList []) cats"
    by (cases t) auto
  then have "category_nodes U cats = Inr []"
    using category_nodes_empty by blast
  with Some t assms(2) show ?thesis by (simp add: technical_section_def)
qed

lemma build_total:
  assumes "is_skill_record r"
  shows "\<exists>tree. build_skill_tree U r = Inr tree"
proof -
  from assms obtain items where r: "r = PDict items"
    and f: "field_ok (skills_ok is_str_list) items (asc ''skills'')"
    by (cases r) (auto simp: is_skill_record_def)
  show ?thesis
  proof (cases "map_of items (asc ''skills'')")
    case None
    then show ?thesis
      by (simp add: r build_skill_tree_def technical_section_def list_section_absent)
  next
    case (Some s)
    with f have "skills_ok is_str_list s" by (simp add: field_ok_def)
    then obtain sk where s: "s = PDict sk"
      and t: "field_ok (categories_ok is_str_list) sk (asc ''technical'')"
      and a: "field_ok is_str_list sk (asc ''soft_skills'')"
      and b: "field_ok is_str_list sk (asc ''domains'')"
      and c: "field_ok is_str_list sk (asc ''certifications'')"
      by (cases s) auto
    from Some s have m: "map_of items (asc ''skills'') = Some (PDict sk)" by simp
    obtain n1 where "technical_section U (PDict items) = Inr n1"
      using technical_section_total [OF t m] by blast
    moreover obtain n2 where
      "list_section (asc ''soft_skills'') (asc ''Soft Skills'') (asc ''skill'') (PDict items) = Inr n2"
      using list_section_total [OF a m] by blast
    moreover obtain n3 where
      "list_section (asc ''domains'') (asc ''Domain Expertise'') (asc ''skill'') (PDict items) = Inr n3"
      using list_section_total [OF b m] by blast
    moreover obtain n4 where
      "list_section (asc ''certifications'') (asc ''Certifications'') (asc ''certification'')
         (PDict items) = Inr n4"
      using list_section_total [OF c m] by blast
    ultimately show ?thesis by (simp add: r build_skill_tree_def)
  qed
qed

lemma build_all_empty:
  assumes "all_empty r"
  shows "build_skill_tree U r = Inr (branch (asc ''Skills'') [])"
proof -
  from assms obtain items where r: "r = PDict items"
    and f: "field_ok (skills_ok (\<lambda>v. v = PList [])) items (asc ''skills'')"
    by (cases r) (auto simp: all_empty_def)
  show ?thesis
  proof (cases "map_of items (asc ''skills'')")
    case None
    then show ?thesis
      by (simp add: r build_skill_tree_def technical_section_def list_section_absent)
  next
    case (Some s)
    with f have "skills_ok (\<lambda>v. v = PList []) s" by (simp add: field_ok_def)
    then obtain sk where s: "s = PDict sk"
      and t: "field_ok (categories_ok (\<lambda>v. v = PList [])) sk (asc ''technical'')"
      and a: "field_ok (\<lambda>v. v = PList []) sk (asc ''soft_skills'')"
      and b: "field_ok (\<lambda>v. v = PList []) sk (asc ''domains'')"
      and c: "field_ok (\<lambda>v. v = PList []) sk (asc ''certifications'')"
      by (cases s) auto
    from Some s have m: "map_of items (asc ''skills'') = Some (PDict sk)" by simp
    have e: "\<And>key. field_ok (\<lambda>v. v = PList []) sk key \<Longrightarrow> field_ok (\<lambda>v. \<not> truthy v) sk key"
      by (erule field_ok_mono) simp
    show ?thesis
      by (simp add: r build_skill_tree_def technical_section_empty [OF t m]
          list_section_empty [OF e [OF a] m] list_section_empty [OF e [OF b] m]
          list_section_empty [OF e [OF c] m])
  qed
qed

text \<open>
  Claim C6. The builder is total on skill records: on every well-formed record it returns a
  tree and raises nothing. On an all-empty record (every field absent or an empty list) the
  tree is the root named "Skills" with an empty list of children.
\<close>

theorem build_empty_record:
  "(is_skill_record r \<longrightarrow> (\<exists>tree. build_skill_tree U r = Inr tree)) \<and>
   (all_empty r \<longrightarrow>
      build_skill_tree U r =
        Inr (PDict [(asc ''name'', PStr (asc ''Skills'')), (asc ''children'', PList [])]))"
  using build_total [of r U] build_all_empty [of r U] by (simp add: branch_def)

theorem build_empty_record_witness:
  "is_skill_record (fallback_skill_extraction plain_unicode []) \<and>
   all_empty (fallback_skill_extraction plain_unicode []) \<and>
   all_empty (PDict []) \<and>
   build_skill_tree plain_unicode (PDict []) =
     Inr (PDict [(asc ''name'', PStr (asc ''Skills'')), (asc ''children'', PList [])]) \<and>
   build_skill_tree plain_unicode (fallback_skill_extraction plain_unicode []) =
     Inr (PDict [(asc ''name'', PStr (asc ''Skills'')), (asc ''children'', PList [])])"
proof -
  have a: "all_empty (fallback_skill_extraction plain_unicode [])"
    by (simp add: all_empty_def fallback_skill_extraction_def found_skills_def tech_keywords_def
        found_keywords_def field_ok_def asc_eval)
  have b: "is_skill_record (fallback_skill_extraction plain_unicode [])"
    by (simp add: is_skill_record_def fallback_skill_extraction_def found_skills_def
        tech_keywords_def found_keywords_def field_ok_def asc_eval)
  have c: "all_empty (PDict [])"
    by (simp add: all_empty_def field_ok_def)
  show ?thesis
    using a b c build_empty_record [of "fallback_skill_extraction plain_unicode []" plain_unicode]
      build_empty_record [of "PDict []" plain_unicode]
    by simp
qed


text \<open>
  Claim C7. On a record whose only non-empty field is the technical category
  \<open>programming_languages\<close> with the one skill "Python", the builder returns exactly the
  chain "Skills", "Technical Skills", "Programming Languages", leaf "Python" of type
  "skill": every list of children has one element, so there is no other branch.
\<close>

theorem build_single_category:
  assumes "map_of items (asc ''skills'') = Some (PDict sk)"
    and "map_of sk (asc ''technical'') = Some (PDict cats)"
    and "filter (\<lambda>kv. truthy (snd kv)) cats
           = [(asc ''programming_languages'', PList [PStr (asc ''Python'')])]"
    and "field_ok (\<lambda>v. \<not> truthy v) sk (asc ''soft_skills'')"
    and "field_ok (\<lambda>v. \<not> truthy v) sk (asc ''domains'')"
    and "field_ok (\<lambda>v. \<not> truthy v) sk (asc ''certifications'')"
  shows "build_skill_tree U (PDict items) =
     Inr (PDict [(asc ''name'', PStr (asc ''Skills'')),
                 (asc ''children'', PList [
        PDict [(asc ''name'', PStr (asc ''Technical Skills'')),
               (asc ''children'', PList [
          PDict [(asc ''name'', PStr (asc ''Programming Languages'')),
                 (asc ''children'', PList [
            PDict [(asc ''name'', PStr (asc ''Python'')),
                   (asc ''type'', PStr (asc ''skill''))]])]])]])])"
proof -
  have l: "category_label U (asc ''programming_languages'') = asc ''Programming Languages''"
    by (simp add: category_label_def asc_eval)
  have "category_nodes U cats =
      category_nodes U [(asc ''programming_languages'', PList [PStr (asc ''Python'')])]"
    using category_nodes_filter [of U cats] assms(3) by simp
  then have "category_nodes U cats =
      Inr [branch (asc ''Programming Languages'') [leaf (asc ''skill'') (PStr (asc ''Python''))]]"
    by (simp add: l)
  then have t: "technical_section U (PDict items) =
      Inr [branch (asc ''Technical Skills'')
             [branch (asc ''Programming Languages'') [leaf (asc ''skill'') (PStr (asc ''Python''))]]]"
    using assms(1,2) by (simp add: technical_section_def)
  show ?thesis
    by (simp add: build_skill_tree_def t list_section_empty [OF assms(4) assms(1)]
        list_section_empty [OF assms(5) assms(1)] list_section_empty [OF assms(6) assms(1)]
        branch_def leaf_def)
qed

theorem build_single_category_witness:
  "build_skill_tree plain_unicode
     (PDict [(asc ''skills'',
        PDict [(asc ''technical'',
                  PDict [(asc ''programming_languages'', PList [PStr (asc ''Python'')]),
                         (asc ''frameworks'', PList [])]),
               (asc ''soft_skills'', PList [])])]) =
     Inr (PDict [(asc ''name'', PStr (asc ''Skills'')),
                 (asc ''children'', PList [
        PDict [(asc ''name'', PStr (asc ''Technical Skills'')),
               (asc ''children'', PList [
          PDict [(asc ''name'', PStr (asc ''Programming Languages'')),
                 (asc ''children'', PList [
            PDict [(asc ''name'', PStr (asc ''Python'')),
                   (asc ''type'', PStr (asc ''skill''))]])]])]])])"
  by (rule build_single_category
        [where sk = "[(asc ''technical'',
                  PDict [(asc ''programming_languages'', PList [PStr (asc ''Python'')]),
                         (asc ''frameworks'', PList [])]),
               (asc ''soft_skills'', PList [])]"
           and cats = "[(asc ''programming_languages'', PList [PStr (asc ''Python'')]),
                         (asc ''frameworks'', PList [])]"])
     (simp_all add: field_ok_def asc_def)

lemma replace_from_single:
  "replace_from [x] [y] s = map (\<lambda>c. if c = x then y else c) s"
  by (induction s) simp_all

lemma category_label_map:
  "category_label U key = str_title U (map (\<lambda>c. if c = 95 then 32 else c) key)"
  by (simp add: category_label_def str_replace_def asc_def replace_from_single)

lemma title_from_ascii:
  "list_all (\<lambda>c. c < 128) s \<Longrightarrow>
   length (title_from U p pre s) = length s \<and>
   (\<forall>i < length s. title_from U p pre s ! i =
      (if (if i = 0 then p else is_letter (s ! (i - 1)))
       then ascii_lower (s ! i) else ascii_upper (s ! i)))"
proof (induction s arbitrary: p pre)
  case Nil
  then show ?case by simp
next
  case (Cons c cs)
  then have c: "c < 128" and cs: "list_all (\<lambda>c. c < 128) cs" by simp_all
  note ih = Cons.IH [OF cs, of "is_cased U c" "pre @ [c]"]
  have hd: "title_from U p pre (c # cs) =
      (if p then ascii_lower c else ascii_upper c) # title_from U (is_cased U c) (pre @ [c]) cs"
    using c by (simp add: lower_cp_def title_cp_def)
  have cased: "is_cased U c = is_letter c"
    using c by (simp add: is_cased_def is_letter_def)
  show ?case
  proof (intro conjI allI impI)
    show "length (title_from U p pre (c # cs)) = length (c # cs)"
      using ih hd by simp
  next
    fix i assume i: "i < length (c # cs)"
    show "title_from U p pre (c # cs) ! i =
      (if (if i = 0 then p else is_letter ((c # cs) ! (i - 1)))
       then ascii_lower ((c # cs) ! i) else ascii_upper ((c # cs) ! i))"
    proof (cases i)
      case 0
      then show ?thesis using hd by simp
    next
      case (Suc j)
      with i have j: "j < length cs" by simp
      from ih j have "title_from U (is_cased U c) (pre @ [c]) cs ! j =
        (if (if j = 0 then is_cased U c else is_letter (cs ! (j - 1)))
         then ascii_lower (cs ! j) else ascii_upper (cs ! j))" by blast
      then show ?thesis
        using Suc hd cased by (cases j) simp_all
    qed
  qed
qed

lemma category_nodes_names:
  "category_nodes U cats = Inr nodes \<Longrightarrow>
   map (\<lambda>n. py_getitem n (asc ''name'')) nodes =
   map (\<lambda>kv. Inr (PStr (category_label U (fst kv)))) (filter (\<lambda>kv. truthy (snd kv)) cats)"
proof (induction U cats arbitrary: nodes rule: category_nodes.induct)
  case (1 U)
  then show ?case by simp
next
  case (2 U category skills rest)
  show ?case
  proof (cases "truthy skills")
    case False
    with 2 show ?thesis by simp
  next
    case True
    with "2.prems" obtain xs ns where xs: "py_iter skills = Inr xs"
      and ns: "category_nodes U rest = Inr ns"
      and nodes: "nodes = branch (category_label U category) (map (leaf (asc ''skill'')) xs) # ns"
      by (auto simp: bind_err_def split: sum.splits)
    from "2.IH"(1) [OF True ns] True nodes show ?thesis
      by (simp add: branch_def asc_def)
  qed
qed

text \<open>
  Claim C8. Every technical category with a non-empty skill list gets a node, in the order
  of the record, whose name is the category key with each underscore replaced by a space
  and then title-cased. For an ASCII key the label has the length of the key and, position
  by position, an underscore has become a space, a character that starts a word (it does
  not follow a letter) is upper-cased and a character that follows a letter is lower-cased.
  The key "cloud_platforms" with one entry gives the label "Cloud Platforms".
\<close>

theorem category_label_formatting:
  "(category_nodes U cats = Inr nodes \<longrightarrow>
      map (\<lambda>n. py_getitem n (asc ''name'')) nodes =
      map (\<lambda>kv. Inr (PStr (category_label U (fst kv)))) (filter (\<lambda>kv. truthy (snd kv)) cats)) \<and>
   category_label U key = str_title U (map (\<lambda>c. if c = 95 then 32 else c) key) \<and>
   (list_all (\<lambda>c. c < 128) key \<longrightarrow>
      length (category_label U key) = length key \<and>
      (\<forall>i < length key. category_label U key ! i =
         (if key ! i = 95 then 32
          else if 0 < i \<and> is_letter (key ! (i - 1)) then ascii_lower (key ! i)
          else ascii_upper (key ! i)))) \<and>
   build_skill_tree U
     (PDict [(asc ''skills'',
        PDict [(asc ''technical'', PDict [(asc ''cloud_platforms'', PList [PStr skill])])])]) =
     Inr (PDict [(asc ''name'', PStr (asc ''Skills'')),
                 (asc ''children'', PList [
        PDict [(asc ''name'', PStr (asc ''Technical Skills'')),
               (asc ''children'', PList [
          PDict [(asc ''name'', PStr (asc ''Cloud Platforms'')),
                 (asc ''children'', PList [
            PDict [(asc ''name'', PStr skill), (asc ''type'', PStr (asc ''skill''))]])]])]])])"
proof (intro conjI impI)
  assume "category_nodes U cats = Inr nodes"
  then show "map (\<lambda>n. py_getitem n (asc ''name'')) nodes =
      map (\<lambda>kv. Inr (PStr (category_label U (fst kv)))) (filter (\<lambda>kv. truthy (snd kv)) cats)"
    by (rule category_nodes_names)
next
  show "category_label U key = str_title U (map (\<lambda>c. if c = 95 then 32 else c) key)"
    by (rule category_label_map)
next
  assume a: "list_all (\<lambda>c. c < 128) key"
  let ?s = "map (\<lambda>c. if c = 95 then 32 else c) key"
  have s: "list_all (\<lambda>c. c < 128) ?s"
    using a by (induction key) auto
  note t = title_from_ascii [OF s, of U False "[]"]
  show "length (category_label U key) = length key"
    using t by (simp add: category_label_map str_title_def)
  show "\<forall>i < length key. category_label U key ! i =
         (if key ! i = 95 then 32
          else if 0 < i \<and> is_letter (key ! (i - 1)) then ascii_lower (key ! i)
          else ascii_upper (key ! i))"
  proof (intro allI impI)
    fix i assume i: "i < length key"
    then have "title_from U False [] ?s ! i =
      (if (if i = 0 then False else is_letter (?s ! (i - 1)))
       then ascii_lower (?s ! i) else ascii_upper (?s ! i))"
      using t by simp
    moreover have "i \<noteq> 0 \<Longrightarrow> is_letter (?s ! (i - 1)) = is_letter (key ! (i - 1))"
      using i by (simp add: is_letter_def)
    ultimately show "category_label U key ! i =
         (if key ! i = 95 then 32
          else if 0 < i \<and> is_letter (key ! (i - 1)) then ascii_lower (key ! i)
          else ascii_upper (key ! i))"
      using i by (auto simp: category_label_map str_title_def ascii_lower_def ascii_upper_def)
  qed
next
  have "category_label U (asc ''cloud_platforms'') = asc ''Cloud Platforms''"
    by (simp add: category_label_def asc_eval)
  then show "build_skill_tree U
     (PDict [(asc ''skills'',
        PDict [(asc ''technical'', PDict [(asc ''cloud_platforms'', PList [PStr skill])])])]) =
     Inr (PDict [(asc ''name'', PStr (asc ''Skills'')),
                 (asc ''children'', PList [
        PDict [(asc ''name'', PStr (asc ''Technical Skills'')),
               (asc ''children'', PList [
          PDict [(asc ''name'', PStr (asc ''Cloud Platforms'')),
                 (asc ''children'', PList [
            PDict [(asc ''name'', PStr skill), (asc ''type'', PStr (asc ''skill''))]])]])]])])"
    by (simp add: build_skill_tree_def technical_section_def list_section_def branch_def
        leaf_def asc_def)
qed

theorem category_label_formatting_witness:
  "category_nodes plain_unicode
     [(asc ''cloud_platforms'', PList [PStr (asc ''AWS'')]), (asc ''tools'', PList [])] =
     Inr [branch (asc ''Cloud Platforms'') [leaf (asc ''skill'') (PStr (asc ''AWS''))]] \<and>
   list_all (\<lambda>c. c < 128) (asc ''cloud_platforms'') \<and>
   category_label plain_unicode (asc ''cloud_platforms'') ! 6 = 80 \<and>
   map (\<lambda>n. py_getitem n (asc ''name''))
     [branch (asc ''Cloud Platforms'') [leaf (asc ''skill'') (PStr (asc ''AWS''))]] =
     [Inr (PStr (category_label plain_unicode (asc ''cloud_platforms'')))]"
proof -
  have a: "category_nodes plain_unicode
     [(asc ''cloud_platforms'', PList [PStr (asc ''AWS'')]), (asc ''tools'', PList [])] =
     Inr [branch (asc ''Cloud Platforms'') [leaf (asc ''skill'') (PStr (asc ''AWS''))]]"
    by (simp add: category_label_def asc_eval)
  have b: "list_all (\<lambda>c. c < 128) (asc ''cloud_platforms'')"
    by (simp add: asc_def)
  have c: "(6::nat) < length (asc ''cloud_platforms'')"
    by (simp add: asc_def)
  from category_label_formatting
    [of plain_unicode "[(asc ''cloud_platforms'', PList [PStr (asc ''AWS'')]), (asc ''tools'', PList [])]"
      "[branch (asc ''Cloud Platforms'') [leaf (asc ''skill'') (PStr (asc ''AWS''))]]"
      "asc ''cloud_platforms''"]
  have d: "map (\<lambda>n. py_getitem n (asc ''name''))
       [branch (asc ''Cloud Platforms'') [leaf (asc ''skill'') (PStr (asc ''AWS''))]] =
      map (\<lambda>kv. Inr (PStr (category_label plain_unicode (fst kv))))
        (filter (\<lambda>kv. truthy (snd kv))
           [(asc ''cloud_platforms'', PList [PStr (asc ''AWS'')]), (asc ''tools'', PList [])])"
    and e: "\<forall>i < length (asc ''cloud_platforms'').
      category_label plain_unicode (asc ''cloud_platforms'') ! i =
         (if asc ''cloud_platforms'' ! i = 95 then 32
          else if 0 < i \<and> is_letter (asc ''cloud_platforms'' ! (i - 1))
               then ascii_lower (asc ''cloud_platforms'' ! i)
          else ascii_upper (asc ''cloud_platforms'' ! i))"
    using a b by blast+
  from e c have "category_label plain_unicode (asc ''cloud_platforms'') ! 6 =
         (if asc ''cloud_platforms'' ! 6 = 95 then 32
          else if 0 < (6::nat) \<and> is_letter (asc ''cloud_platforms'' ! (6 - 1))
               then ascii_lower (asc ''cloud_platforms'' ! 6)
          else ascii_upper (asc ''cloud_platforms'' ! 6))"
    by blast
  then have f: "category_label plain_unicode (asc ''cloud_platforms'') ! 6 = 80"
    by (simp add: asc_def is_letter_def ascii_upper_def ascii_lower_def)
  from d have g: "map (\<lambda>n. py_getitem n (asc ''name''))
     [branch (asc ''Cloud Platforms'') [leaf (asc ''skill'') (PStr (asc ''AWS''))]] =
     [Inr (PStr (category_label plain_unicode (asc ''cloud_platforms'')))]"
    by simp
  show ?thesis using a b f g by blast
qed


lemma map_of_found_skills:
  "map_of (found_skills U text) category =
     map_option (\<lambda>keywords. PList (map PStr (found_keywords U (str_lower U text) keywords)))
       (map_of tech_keywords category)"
  by (simp add: found_skills_def map_of_map Let_def)

lemma technical_category_fallback:
  "technical_category (fallback_skill_extraction U text) category =
     (case map_of tech_keywords category of
        None \<Rightarrow> Inl KeyError
      | Some keywords \<Rightarrow>
          Inr (PList (map PStr (found_keywords U (str_lower U text) keywords))))"
  by (simp add: technical_category_def fallback_skill_extraction_def asc_def
      map_of_found_skills [unfolded asc_def] split: option.splits)

lemma found_keywords_iff:
  "keyword \<in> set (found_keywords U resume_lower keywords) \<longleftrightarrow>
     keyword \<in> set keywords \<and> (\<exists>pre suf. resume_lower = pre @ str_lower U keyword @ suf)"
  by (auto simp: found_keywords_def str_contains_iff)

lemma found_ascii_keyword:
  assumes "keyword \<in> set keywords" and "list_all (\<lambda>c. c < 128) k"
    and "str_lower U keyword = map ascii_lower k" and "text = a @ k @ b"
  shows "keyword \<in> set (found_keywords U (str_lower U text) keywords)"
  using contains_lowered [OF assms(2,4), of U] assms(1,3) by (simp add: found_keywords_def)

lemma programming_languages_table:
  "map_of tech_keywords (asc ''programming_languages'') =
     Some (map asc [''Python'', ''JavaScript'', ''Java'', ''C++'', ''C#'', ''Go'', ''Rust'',
                  ''TypeScript'', ''SQL'', ''R'', ''Swift'', ''Kotlin''])"
  by (simp add: tech_keywords_def asc_def)

section \<open>Properties of the keyword fallback\<close>

text \<open>
  Claim C9. In the keyword fallback a candidate of a category is in the category's result
  list if and only if its lower-cased name is a substring of the lower-cased text; the
  match is not on whole words. A text that contains the letter "r" reports the language
  "R", and a text that contains "JavaScript" reports "JavaScript" and "Java".
\<close>

theorem keyword_substring_matching:
  "(map_of tech_keywords category = Some keywords \<longrightarrow>
      (\<exists>found. technical_category (fallback_skill_extraction U text) category
                 = Inr (PList (map PStr found)) \<and>
         (\<forall>keyword. keyword \<in> set found \<longleftrightarrow>
            keyword \<in> set keywords \<and>
            (\<exists>pre suf. str_lower U text = pre @ str_lower U keyword @ suf)))) \<and>
   (114 \<in> set text \<longrightarrow>
      (\<exists>found. technical_category (fallback_skill_extraction U text) (asc ''programming_languages'')
                 = Inr (PList (map PStr found)) \<and> asc ''R'' \<in> set found)) \<and>
   ((\<exists>a b. text = a @ asc ''JavaScript'' @ b) \<longrightarrow>
      (\<exists>found. technical_category (fallback_skill_extraction U text) (asc ''programming_languages'')
                 = Inr (PList (map PStr found)) \<and>
         asc ''JavaScript'' \<in> set found \<and> asc ''Java'' \<in> set found))"
proof (intro conjI impI)
  assume "map_of tech_keywords category = Some keywords"
  then have "technical_category (fallback_skill_extraction U text) category
      = Inr (PList (map PStr (found_keywords U (str_lower U text) keywords)))"
    by (simp add: technical_category_fallback)
  then show "\<exists>found. technical_category (fallback_skill_extraction U text) category
                 = Inr (PList (map PStr found)) \<and>
         (\<forall>keyword. keyword \<in> set found \<longleftrightarrow>
            keyword \<in> set keywords \<and>
            (\<exists>pre suf. str_lower U text = pre @ str_lower U keyword @ suf))"
    using found_keywords_iff by blast
next
  let ?table = "map asc [''Python'', ''JavaScript'', ''Java'', ''C++'', ''C#'', ''Go'', ''Rust'',
                  ''TypeScript'', ''SQL'', ''R'', ''Swift'', ''Kotlin'']"
  let ?found = "found_keywords U (str_lower U text) ?table"
  have t: "technical_category (fallback_skill_extraction U text) (asc ''programming_languages'')
      = Inr (PList (map PStr ?found))"
    by (simp add: technical_category_fallback programming_languages_table)
  {
    assume "114 \<in> set text"
    then obtain a b where "text = a @ [114] @ b"
      by (auto simp: in_set_conv_decomp)
    then have "asc ''R'' \<in> set ?found"
      by (rule found_ascii_keyword [rotated 3]) (simp_all add: asc_eval)
    with t show "\<exists>found. technical_category (fallback_skill_extraction U text)
          (asc ''programming_languages'') = Inr (PList (map PStr found)) \<and> asc ''R'' \<in> set found"
      by blast
  }
  {
    assume "\<exists>a b. text = a @ asc ''JavaScript'' @ b"
    then obtain a b where ab: "text = a @ asc ''JavaScript'' @ b" by blast
    then have "asc ''JavaScript'' \<in> set ?found"
      by (rule found_ascii_keyword [rotated 3]) (simp_all add: asc_eval)
    moreover from ab have "text = a @ asc ''Java'' @ (asc ''Script'' @ b)"
      by (simp add: asc_def)
    then have "asc ''Java'' \<in> set ?found"
      by (rule found_ascii_keyword [rotated 3]) (simp_all add: asc_eval)
    ultimately show "\<exists>found. technical_category (fallback_skill_extraction U text)
          (asc ''programming_languages'') = Inr (PList (map PStr found)) \<and>
         asc ''JavaScript'' \<in> set found \<and> asc ''Java'' \<in> set found"
      using t by blast
  }
qed


theorem keyword_substring_matching_witness:
  "map_of tech_keywords (asc ''frameworks'') =
     Some (map asc [''React'', ''Vue'', ''Angular'', ''Django'', ''Flask'', ''FastAPI'', ''Spring'',
                  ''Node.js'', ''Express'', ''TensorFlow'', ''PyTorch'']) \<and>
   114 \<in> set (asc ''I wrote JavaScript'') \<and>
   (\<exists>a b. asc ''I wrote JavaScript'' = a @ asc ''JavaScript'' @ b) \<and>
   (\<exists>found. technical_category (fallback_skill_extraction plain_unicode (asc ''I wrote JavaScript''))
               (asc ''programming_languages'') = Inr (PList (map PStr found)) \<and>
       asc ''R'' \<in> set found \<and> asc ''JavaScript'' \<in> set found \<and> asc ''Java'' \<in> set found) \<and>
   (\<exists>found. technical_category (fallback_skill_extraction plain_unicode (asc ''I wrote JavaScript''))
               (asc ''frameworks'') = Inr (PList (map PStr found)) \<and> asc ''React'' \<notin> set found)"
proof -
  let ?text = "asc ''I wrote JavaScript''"
  let ?fw = "map asc [''React'', ''Vue'', ''Angular'', ''Django'', ''Flask'', ''FastAPI'', ''Spring'',
                  ''Node.js'', ''Express'', ''TensorFlow'', ''PyTorch'']"
  have a: "map_of tech_keywords (asc ''frameworks'') = Some ?fw"
    by (simp add: tech_keywords_def asc_def)
  have b: "114 \<in> set ?text"
    by (simp add: asc_def)
  have "?text = asc ''I wrote '' @ asc ''JavaScript'' @ []"
    by (simp add: asc_def)
  then have c: "\<exists>a b. ?text = a @ asc ''JavaScript'' @ b"
    by blast
  note t = keyword_substring_matching [of "asc ''frameworks''" ?fw plain_unicode ?text]
  from t a obtain f1 where f1:
    "technical_category (fallback_skill_extraction plain_unicode ?text) (asc ''frameworks'')
       = Inr (PList (map PStr f1))"
    "\<forall>keyword. keyword \<in> set f1 \<longleftrightarrow> keyword \<in> set ?fw \<and>
        (\<exists>pre suf. str_lower plain_unicode ?text = pre @ str_lower plain_unicode keyword @ suf)"
    by blast
  have "\<not> (\<exists>pre suf. str_lower plain_unicode ?text
            = pre @ str_lower plain_unicode (asc ''React'') @ suf)"
    unfolding str_contains_iff [symmetric] by (simp add: asc_eval)
  with f1(2) have d: "asc ''React'' \<notin> set f1"
    by blast
  from t b obtain f2 where f2:
    "technical_category (fallback_skill_extraction plain_unicode ?text)
       (asc ''programming_languages'') = Inr (PList (map PStr f2))" "asc ''R'' \<in> set f2"
    by blast
  from t c obtain f3 where f3:
    "technical_category (fallback_skill_extraction plain_unicode ?text)
       (asc ''programming_languages'') = Inr (PList (map PStr f3))"
    "asc ''JavaScript'' \<in> set f3" "asc ''Java'' \<in> set f3"
    by blast
  from f2(1) f3(1) have "map PStr f2 = map PStr f3" by simp
  then have "f2 = f3" by (simp add: inj_on_def)
  with f2 f3 have e: "\<exists>found. technical_category (fallback_skill_extraction plain_unicode ?text)
               (asc ''programming_languages'') = Inr (PList (map PStr found)) \<and>
       asc ''R'' \<in> set found \<and> asc ''JavaScript'' \<in> set found \<and> asc ''Java'' \<in> set found"
    by blast
  from f1(1) d have f: "\<exists>found. technical_category (fallback_skill_extraction plain_unicode ?text)
               (asc ''frameworks'') = Inr (PList (map PStr found)) \<and> asc ''React'' \<notin> set found"
    by blast
  show ?thesis using a b c e f by blast
qed

lemma found_skills_shape:
  "found_skills U text =
     map (\<lambda>(c, ks). (c, PList (map PStr ks)))
       (map (\<lambda>(c, ks). (c, found_keywords U (str_lower U text) ks)) tech_keywords)"
  by (simp add: found_skills_def Let_def case_prod_unfold comp_def)

lemma found_keywords_table:
  "list_all2
     (\<lambda>(c, ks) (c', table). c = c' \<and> subseq ks table \<and>
        ((\<forall>k \<in> set table. \<not> str_contains (str_lower U text) (str_lower U k)) \<longrightarrow> ks = []))
     (map (\<lambda>(c, ks). (c, found_keywords U (str_lower U text) ks)) tables) tables"
  by (induction tables) (auto simp: found_keywords_def filter_empty_conv)

lemma classify_no_key:
  "self_api_key = None \<or> self_api_key = Some [] \<Longrightarrow>
   classify U loads outcome self_api_key text = Inr (fallback_skill_extraction U text)"
  by (auto simp: classify_def)

text \<open>
  Claim C5. With no credential (none, or an empty string) the classifier returns the record
  of the keyword fallback: every technical category of the table is present, in the order
  of the table; its list is a subsequence of the table's list for that category, so it
  keeps the declared order; it is empty when no keyword of the category matches; the
  fields that are not technical are empty. The result does not depend on the remote
  service or on the parser, so two runs on the same text give the same record.
\<close>

theorem classify_without_credential:
  assumes "self_api_key = None \<or> self_api_key = Some []"
  shows "\<exists>found.
     classify U loads outcome self_api_key text =
       Inr (PDict [(asc ''skills'',
               PDict [(asc ''technical'', PDict (map (\<lambda>(c, ks). (c, PList (map PStr ks))) found)),
                      (asc ''soft_skills'', PList []),
                      (asc ''domains'', PList []),
                      (asc ''certifications'', PList [])]),
            (asc ''experience_levels'', PDict []),
            (asc ''skill_relationships'', PList [])]) \<and>
     list_all2
       (\<lambda>(c, ks) (c', table). c = c' \<and> subseq ks table \<and>
          ((\<forall>k \<in> set table. \<not> str_contains (str_lower U text) (str_lower U k)) \<longrightarrow> ks = []))
       found tech_keywords \<and>
     classify U loads' outcome' self_api_key text = classify U loads outcome self_api_key text"
proof -
  let ?found = "map (\<lambda>(c, ks). (c, found_keywords U (str_lower U text) ks)) tech_keywords"
  have "classify U loads outcome self_api_key text =
       Inr (PDict [(asc ''skills'',
               PDict [(asc ''technical'', PDict (map (\<lambda>(c, ks). (c, PList (map PStr ks))) ?found)),
                      (asc ''soft_skills'', PList []),
                      (asc ''domains'', PList []),
                      (asc ''certifications'', PList [])]),
            (asc ''experience_levels'', PDict []),
            (asc ''skill_relationships'', PList [])])"
    using assms
    by (simp add: classify_no_key fallback_skill_extraction_def found_skills_shape)
  moreover have "classify U loads' outcome' self_api_key text
      = classify U loads outcome self_api_key text"
    using assms by (simp add: classify_no_key)
  ultimately show ?thesis
    using found_keywords_table [of U "text" tech_keywords] by blast
qed

theorem classify_without_credential_witness:
  "\<exists>found.
     classify plain_unicode (\<lambda>s. NotJSON) (Response 200 (Decoded (PDict []))) (Some [])
         (asc ''Rust and Docker'') =
       Inr (PDict [(asc ''skills'',
               PDict [(asc ''technical'', PDict (map (\<lambda>(c, ks). (c, PList (map PStr ks))) found)),
                      (asc ''soft_skills'', PList []),
                      (asc ''domains'', PList []),
                      (asc ''certifications'', PList [])]),
            (asc ''experience_levels'', PDict []),
            (asc ''skill_relationships'', PList [])]) \<and>
     list_all2
       (\<lambda>(c, ks) (c', table). c = c' \<and> subseq ks table \<and>
          ((\<forall>k \<in> set table. \<not> str_contains (str_lower plain_unicode (asc ''Rust and Docker''))
                                 (str_lower plain_unicode k)) \<longrightarrow> ks = []))
       found tech_keywords \<and>
     classify plain_unicode (\<lambda>s. Loaded PNone) TransportError (Some []) (asc ''Rust and Docker'')
       = classify plain_unicode (\<lambda>s. NotJSON) (Response 200 (Decoded (PDict []))) (Some [])
           (asc ''Rust and Docker'')"
  by (rule classify_without_credential) simp

section \<open>Properties of the text extractor\<close>

text \<open>
  Claim C2. The claim says that a backend that raises while it reads the pages counts as
  having produced no text, and that no partial output is returned. Here the first backend
  reads the first page and raises on the second one, and the second backend would read
  both pages: the text kept from the first backend is returned and the second backend is
  never tried.
\<close>

theorem extract_keeps_partial_text:
  "extract_text_from_pdf U
     (Some (\<lambda>path. [Page (Some (asc ''A'')), Raise]))
     (Some (\<lambda>path. [Page (Some (asc ''A'')), Page (Some (asc ''B''))]))
     pdf_path = Inr (asc ''A'')"
  by (simp add: extract_text_from_pdf_def str_strip_def is_space_def asc_def)

text \<open>
  Claim C3. The claim says that a successful extraction is never the empty string. The
  emptiness test is made before the text is trimmed: a page whose text is one space makes
  the accumulated text non-empty, the second backend is not tried, and the trimmed result
  is the empty string.
\<close>

theorem extract_returns_empty_string:
  "extract_text_from_pdf U (Some (\<lambda>path. [Page (Some (asc '' ''))])) PyPDF2 pdf_path = Inr []"
  by (simp add: extract_text_from_pdf_def str_strip_def is_space_def asc_def)

section \<open>Properties of the remote classifier\<close>

lemma response_content_chat: "response_content (chat_response content) = Inr (PStr content)"
  by (simp add: response_content_def chat_response_def asc_def)

lemma response_content_default:
  assumes "lacks_content result"
  shows "response_content result = Inr (PStr (asc ''{}''))"
proof -
  from assms obtain kvs where r: "result = PDict kvs"
    by (cases result) (simp_all add: lacks_content_def)
  show ?thesis
  proof (cases "map_of kvs (asc ''choices'')")
    case None
    with r show ?thesis by (simp add: response_content_def bind_err_def)
  next
    case (Some choices)
    note ch = this
    from assms r ch obtain choice rest where c: "choices = PList (PDict choice # rest)"
      by (auto simp: lacks_content_def split: pyval.splits list.splits)
    show ?thesis
    proof (cases "map_of choice (asc ''message'')")
      case None
      with r ch c show ?thesis by (simp add: response_content_def bind_err_def)
    next
      case (Some message)
      note ms = this
      from assms r ch c ms obtain kvs' where
        m: "message = PDict kvs'" and n: "map_of kvs' (asc ''content'') = None"
        by (auto simp: lacks_content_def split: pyval.splits)
      with r ch c ms show ?thesis by (simp add: response_content_def bind_err_def)
    qed
  qed
qed

lemma strip_code_fence_braces: "strip_code_fence U (asc ''{}'') = asc ''{}''"
  by (simp add: strip_code_fence_def str_strip_def is_space_def asc_def)

lemma print_content:
  "py_print (asc ''Response content: '' @ s) = (if utf8_encodable s then None else Some UnicodeEncodeError)"
  by (simp add: py_print_def utf8_encodable_def asc_def)

lemma analyze_transport_error:
  "analyze_resume_with_xai U loads TransportError resume_text
     = Inr (fallback_skill_extraction U resume_text)"
  by (simp add: analyze_resume_with_xai_def)

lemma analyze_error_status:
  "400 \<le> status \<and> status < 600 \<Longrightarrow>
   analyze_resume_with_xai U loads (Response status body) resume_text
     = Inr (fallback_skill_extraction U resume_text)"
  by (simp add: analyze_resume_with_xai_def)

lemma analyze_other_error:
  "analyze_resume_with_xai U loads (Response status OtherError) resume_text
     = Inr (fallback_skill_extraction U resume_text)"
  by (simp add: analyze_resume_with_xai_def)

lemma analyze_no_string_content:
  assumes "\<forall>content. response_content result \<noteq> Inr (PStr content)"
  shows "analyze_resume_with_xai U loads (Response status (Decoded result)) resume_text
     = Inr (fallback_skill_extraction U resume_text)"
proof (cases "response_content result")
  case (Inl e)
  then show ?thesis by (simp add: analyze_resume_with_xai_def)
next
  case (Inr v)
  with assms show ?thesis
    by (cases v) (simp_all add: analyze_resume_with_xai_def)
qed

lemma analyze_rejected_content:
  assumes "response_content result = Inr (PStr content)"
    and "loads (strip_code_fence U content) = LoadsError
         \<or> (loads (strip_code_fence U content) = NotJSON
            \<and> utf8_encodable (take 500 (strip_code_fence U content)))"
  shows "analyze_resume_with_xai U loads (Response status (Decoded result)) resume_text
     = Inr (fallback_skill_extraction U resume_text)"
  using assms by (auto simp: analyze_resume_with_xai_def Let_def print_content)

lemma analyze_parsed_content:
  "\<not> (400 \<le> status \<and> status < 600) \<Longrightarrow> response_content result = Inr (PStr content) \<Longrightarrow>
   loads (strip_code_fence U content) = Loaded skill_data \<Longrightarrow>
   analyze_resume_with_xai U loads (Response status (Decoded result)) resume_text = Inr skill_data"
  by (auto simp: analyze_resume_with_xai_def Let_def)

text \<open>
  Claim C4, as amended. With a credential, the classifier returns exactly the record of the
  keyword fallback, and raises nothing, in these cases: the request raises; the status is
  between 400 and 599; \<open>response.json()\<close> raises an exception that is not a JSON decode
  error; reading \<open>result.get('choices', [{}])[0].get('message', {}).get('content', '{}')\<close>
  on the decoded response raises or gives a value that is not a string; the parser raises
  an exception that is not the decode error on the content, trimmed and without its
  code-fence lines; that content is not a JSON text and its first 500 characters hold no
  surrogate. A content that is a JSON text is returned as parsed, whatever its shape: there
  is no schema check. A key \<open>choices\<close>, \<open>message\<close> or \<open>content\<close> that is absent is not a
  failure: the content is then the text of the empty object, and what the parser gives for
  that text is returned, not the record of the fallback.
\<close>

theorem remote_failure_falls_back:
  assumes "self_api_key = Some key" and "key \<noteq> []"
  shows "(outcome = TransportError
          \<or> (\<exists>status body. outcome = Response status body \<and> 400 \<le> status \<and> status < 600)
          \<or> (\<exists>status. outcome = Response status OtherError)
          \<or> (\<exists>status result. outcome = Response status (Decoded result)
                \<and> (\<forall>content. response_content result \<noteq> Inr (PStr content)))
          \<or> (\<exists>status result content. outcome = Response status (Decoded result)
                \<and> response_content result = Inr (PStr content)
                \<and> (loads (strip_code_fence U content) = LoadsError
                     \<or> (loads (strip_code_fence U content) = NotJSON
                        \<and> utf8_encodable (take 500 (strip_code_fence U content)))))
          \<longrightarrow> classify U loads outcome self_api_key resume_text
                = Inr (fallback_skill_extraction U resume_text)) \<and>
         (\<forall>status result content skill_data.
            outcome = Response status (Decoded result) \<and> \<not> (400 \<le> status \<and> status < 600)
            \<and> response_content result = Inr (PStr content)
            \<and> loads (strip_code_fence U content) = Loaded skill_data
          \<longrightarrow> classify U loads outcome self_api_key resume_text = Inr skill_data) \<and>
         (\<forall>status result skill_data.
            outcome = Response status (Decoded result) \<and> \<not> (400 \<le> status \<and> status < 600)
            \<and> lacks_content result \<and> loads (asc ''{}'') = Loaded skill_data
          \<longrightarrow> classify U loads outcome self_api_key resume_text = Inr skill_data)"
proof -
  have c: "classify U loads outcome self_api_key resume_text
      = analyze_resume_with_xai U loads outcome resume_text"
    using assms by (simp add: classify_def)
  show ?thesis
    unfolding c
  proof (intro conjI impI allI)
    assume "outcome = TransportError
          \<or> (\<exists>status body. outcome = Response status body \<and> 400 \<le> status \<and> status < 600)
          \<or> (\<exists>status. outcome = Response status OtherError)
          \<or> (\<exists>status result. outcome = Response status (Decoded result)
                \<and> (\<forall>content. response_content result \<noteq> Inr (PStr content)))
          \<or> (\<exists>status result content. outcome = Response status (Decoded result)
                \<and> response_content result = Inr (PStr content)
                \<and> (loads (strip_code_fence U content) = LoadsError
                     \<or> (loads (strip_code_fence U content) = NotJSON
                        \<and> utf8_encodable (take 500 (strip_code_fence U content)))))"
    then consider "outcome = TransportError"
      | status body where "outcome = Response status body" "400 \<le> status \<and> status < 600"
      | status where "outcome = Response status OtherError"
      | status result where "outcome = Response status (Decoded result)"
          "\<forall>content. response_content result \<noteq> Inr (PStr content)"
      | status result content where "outcome = Response status (Decoded result)"
          "response_content result = Inr (PStr content)"
          "loads (strip_code_fence U content) = LoadsError
             \<or> (loads (strip_code_fence U content) = NotJSON
                \<and> utf8_encodable (take 500 (strip_code_fence U content)))"
      by blast
    then show "analyze_resume_with_xai U loads outcome resume_text
        = Inr (fallback_skill_extraction U resume_text)"
    proof cases
      case 1
      then show ?thesis by (simp add: analyze_transport_error)
    next
      case 2
      then show ?thesis by (simp add: analyze_error_status)
    next
      case 3
      then show ?thesis by (simp add: analyze_other_error)
    next
      case 4
      then show ?thesis by (simp add: analyze_no_string_content)
    next
      case 5
      then show ?thesis using analyze_rejected_content [of result content loads U] by simp
    qed
  next
    fix status result content skill_data
    assume "outcome = Response status (Decoded result) \<and> \<not> (400 \<le> status \<and> status < 600)
            \<and> response_content result = Inr (PStr content)
            \<and> loads (strip_code_fence U content) = Loaded skill_data"
    then show "analyze_resume_with_xai U loads outcome resume_text = Inr skill_data"
      using analyze_parsed_content [of status result content loads U skill_data resume_text]
      by blast
  next
    fix status result skill_data
    assume a: "outcome = Response status (Decoded result) \<and> \<not> (400 \<le> status \<and> status < 600)
            \<and> lacks_content result \<and> loads (asc ''{}'') = Loaded skill_data"
    then have "response_content result = Inr (PStr (asc ''{}''))"
      by (simp add: response_content_default)
    moreover from a have "loads (strip_code_fence U (asc ''{}'')) = Loaded skill_data"
      by (simp add: strip_code_fence_braces)
    ultimately show "analyze_resume_with_xai U loads outcome resume_text = Inr skill_data"
      using a analyze_parsed_content [of status result "asc ''{}''" loads U skill_data resume_text]
      by blast
  qed
qed

lemma fence_example:
  "strip_code_fence plain_unicode (asc ''```json'' @ [10] @ asc ''{}'' @ [10] @ asc ''```'' @ [10])
     = asc ''{}''"
  by (simp add: strip_code_fence_def str_strip_def is_space_def plain_unicode_def asc_def)

lemma loads_braces: "json_loads (asc ''{}'') = Loaded (PDict [])"
  by (simp add: json_loads_def parse_eval)

lemma loads_not_json: "json_loads (strip_code_fence plain_unicode (asc ''not json'')) = NotJSON"
  by (simp add: json_loads_def strip_code_fence_def str_strip_def is_space_def plain_unicode_def
      parse_eval)

lemma printable_not_json:
  "utf8_encodable (take 500 (strip_code_fence plain_unicode (asc ''not json'')))"
  by (simp add: strip_code_fence_def str_strip_def is_space_def plain_unicode_def
      utf8_encodable_def asc_def)

lemma empty_choices_raises:
  "response_content (PDict [(asc ''choices'', PList [])]) = Inl IndexError"
  by (simp add: response_content_def bind_err_def asc_def)

theorem remote_failure_falls_back_witness:
  "classify plain_unicode json_loads (Response 500 (Decoded (PDict []))) (Some (asc ''key''))
      (asc ''Rust'') = Inr (fallback_skill_extraction plain_unicode (asc ''Rust'')) \<and>
   classify plain_unicode json_loads
      (Response 200 (Decoded (PDict [(asc ''choices'', PList [])])))
      (Some (asc ''key'')) (asc ''Rust'')
     = Inr (fallback_skill_extraction plain_unicode (asc ''Rust'')) \<and>
   classify plain_unicode json_loads (Response 200 (Decoded (chat_response (asc ''not json''))))
      (Some (asc ''key'')) (asc ''Rust'')
     = Inr (fallback_skill_extraction plain_unicode (asc ''Rust'')) \<and>
   classify plain_unicode json_loads
      (Response 200 (Decoded (chat_response
          (asc ''```json'' @ [10] @ asc ''{}'' @ [10] @ asc ''```'' @ [10]))))
      (Some (asc ''key'')) (asc ''Rust'') = Inr (PDict []) \<and>
   classify plain_unicode json_loads (Response 200 (Decoded (PDict [])))
      (Some (asc ''key'')) (asc ''Rust'') = Inr (PDict [])"
proof -
  have k: "asc ''key'' \<noteq> []" by (simp add: asc_def)
  note t = remote_failure_falls_back [OF refl k, where U = plain_unicode and loads = json_loads
      and resume_text = "asc ''Rust''"]
  have a: "classify plain_unicode json_loads (Response 500 (Decoded (PDict []))) (Some (asc ''key''))
      (asc ''Rust'') = Inr (fallback_skill_extraction plain_unicode (asc ''Rust''))"
    using t [where outcome = "Response 500 (Decoded (PDict []))"] by simp
  have b: "classify plain_unicode json_loads
      (Response 200 (Decoded (PDict [(asc ''choices'', PList [])])))
      (Some (asc ''key'')) (asc ''Rust'')
     = Inr (fallback_skill_extraction plain_unicode (asc ''Rust''))"
    using t [where outcome = "Response 200 (Decoded (PDict [(asc ''choices'', PList [])]))"]
      empty_choices_raises by simp
  have c: "classify plain_unicode json_loads
      (Response 200 (Decoded (chat_response (asc ''not json''))))
      (Some (asc ''key'')) (asc ''Rust'')
     = Inr (fallback_skill_extraction plain_unicode (asc ''Rust''))"
    using t [where outcome = "Response 200 (Decoded (chat_response (asc ''not json'')))"]
      response_content_chat loads_not_json printable_not_json by simp
  have d: "classify plain_unicode json_loads
      (Response 200 (Decoded (chat_response
          (asc ''```json'' @ [10] @ asc ''{}'' @ [10] @ asc ''```'' @ [10]))))
      (Some (asc ''key'')) (asc ''Rust'') = Inr (PDict [])"
    using t [where outcome = "Response 200 (Decoded (chat_response
          (asc ''```json'' @ [10] @ asc ''{}'' @ [10] @ asc ''```'' @ [10])))"]
      fence_example response_content_chat loads_braces
    by simp
  have "lacks_content (PDict [])"
    by (simp add: lacks_content_def)
  then have e: "classify plain_unicode json_loads (Response 200 (Decoded (PDict [])))
      (Some (asc ''key'')) (asc ''Rust'') = Inr (PDict [])"
    using t [where outcome = "Response 200 (Decoded (PDict []))"] loads_braces by simp
  show ?thesis using a b c d e by blast
qed

text \<open>
  The claim as stated fails: a response whose content is the JSON text \<open>[]\<close>, which is
  not a skill record, is returned as it is and is not the record of the fallback.
\<close>

theorem remote_schema_mismatch_returned:
  "classify plain_unicode json_loads (Response 200 (Decoded (chat_response (asc ''[]''))))
      (Some (asc ''key'')) (asc ''Rust'') = Inr (PList []) \<and>
   fallback_skill_extraction plain_unicode (asc ''Rust'') \<noteq> PList []"
proof -
  have "json_loads (strip_code_fence plain_unicode (asc ''[]'')) = Loaded (PList [])"
    by (simp add: json_loads_def strip_code_fence_def str_strip_def is_space_def
        plain_unicode_def parse_eval)
  then show ?thesis
    by (simp add: classify_def analyze_resume_with_xai_def response_content_chat
        fallback_skill_extraction_def asc_def)
qed

text \<open>
  When the body of the response is not JSON and \<open>response.json()\<close> raises the decode
  error, the handler reads \<open>content\<close> before any assignment and the error leaves the
  function.
\<close>

lemma remote_body_not_json_raises:
  "classify U loads (Response 200 DecodeError) (Some (asc ''key'')) resume_text
     = Inl UnboundLocalError"
  by (simp add: classify_def analyze_resume_with_xai_def asc_def)

text \<open>
  When the content is not a JSON text and one of its first 500 characters is a surrogate,
  the handler fails to print it and the error leaves the function.
\<close>

lemma remote_unprintable_content_raises:
  assumes "loads (strip_code_fence U content) = NotJSON"
    and "\<not> utf8_encodable (take 500 (strip_code_fence U content))"
  shows "classify U loads (Response 200 (Decoded (chat_response content))) (Some (asc ''key''))
           resume_text = Inl UnicodeEncodeError"
proof -
  have "asc ''key'' \<noteq> []" by (simp add: asc_def)
  with assms show ?thesis
    by (simp add: classify_def analyze_resume_with_xai_def response_content_chat Let_def
        print_content)
qed

lemma remote_surrogate_content_raises:
  "classify plain_unicode json_loads (Response 200 (Decoded (chat_response [55296])))
     (Some (asc ''key'')) (asc ''Rust'') = Inl UnicodeEncodeError"
proof -
  have s: "strip_code_fence plain_unicode [55296] = [55296]"
    by (simp add: strip_code_fence_def str_strip_def is_space_def plain_unicode_def asc_def)
  have "json_loads [55296] = NotJSON"
    by (simp add: json_loads_def parse_eval)
  then show ?thesis
    using remote_unprintable_content_raises [of json_loads plain_unicode "[55296]"] s
    by (simp add: utf8_encodable_def)
qed

section \<open>Properties of the pipeline\<close>







section \<open>Properties of the serialiser, the parser and the writer\<close>







































lemma utf8_encodable_append [simp]:
  "utf8_encodable (a @ b) = (utf8_encodable a \<and> utf8_encodable b)"
  by (simp add: utf8_encodable_def)

lemma utf8_encodable_Cons [simp]:
  "utf8_encodable (c # s) = (no_surrogate c \<and> utf8_encodable s)"
  by (simp add: utf8_encodable_def no_surrogate_def)

lemma utf8_encodable_Nil [simp]: "utf8_encodable []"
  by (simp add: utf8_encodable_def)



























end
